theory Spec2Isabelle
  imports Complex_Main "HOL-Library.Word"
begin

section \<open>The occupancy grid facade\<close>

text \<open>
  The class \<open>OccupancyGrid\<close> of \<open>occupancy_grid.h\<close> is a thin layer over
  \<open>distance_field::PropagationDistanceField\<close>: it keeps a raw pointer to a field and
  forwards to it. The field's own code is a library behind an include; here a field is
  the record of the four member functions the header calls, so every statement about
  the facade holds for whatever the library computes. A call into the library returns a
  value or fails.

  The members keep their names without the final underscore, which a name cannot end
  with here; the pointer member is \<open>grid_ptr\<close>.

  C++ \<open>int\<close> arguments are only compared, never added or multiplied, in the functions
  below; they are modelled by \<open>int\<close>, of which the 32-bit values are a part.

  A finite \<open>double\<close> is modelled by the rational number it denotes.
\<close>

type_synonym double = rat

type_synonym addr = nat

datatype Dimension = DIM_X | DIM_Y | DIM_Z

text \<open>
  Everything that is not a normal return. In the facade: a dereference of a pointer that
  refers to no live field, an out-of-bounds condition (only the library can raise one:
  the facade has no such check), a floating-point value converted to an integer type
  that cannot hold its truncation (undefined in C++), a read of an array or vector
  past its end. In the obstacle-file loader of \<open>call_planner.cpp\<close>: a token longer than
  the 1024-byte buffer \<open>sTemp\<close>, a read of \<open>sTemp\<close> before anything was stored in it,
  \<open>atoi\<close> of a number that does not fit an \<open>int\<close> (undefined in C),
  \<open>std::length_error\<close> from \<open>vector::resize\<close>, \<open>std::out_of_range\<close> from
  \<open>vector::at\<close>.
\<close>

datatype error =
    InvalidPointer
  | OutOfBounds
  | ConversionUndefined
  | ArrayOutOfRange
  | BufferOverflow
  | UninitializedRead
  | IntegerOverflow
  | LengthError
  | OutOfRangeException

record PropagationDistanceField =
  getNumCells :: "Dimension \<Rightarrow> int"
  getDistanceFromCell :: "int \<Rightarrow> int \<Rightarrow> int \<Rightarrow> error + double"
  field_gridToWorld :: "int \<Rightarrow> int \<Rightarrow> int \<Rightarrow> double \<times> double \<times> double"
  field_worldToGrid :: "double \<Rightarrow> double \<Rightarrow> double \<Rightarrow> int \<times> int \<times> int"

type_synonym heap = "addr \<Rightarrow> PropagationDistanceField option"

record OccupancyGrid =
  grid_resolution :: double
  prop_distance :: double
  reference_frame :: string
  grid_ptr :: addr

text \<open>A method runs on the store of fields and on the object itself.\<close>

type_synonym state = "heap \<times> OccupancyGrid"

definition deref :: "state \<Rightarrow> error + PropagationDistanceField" where
  "deref s = (case fst s (grid_ptr (snd s)) of None \<Rightarrow> Inl InvalidPointer | Some f \<Rightarrow> Inr f)"

definition getDistanceFieldPtr :: "state \<Rightarrow> addr" where
  "getDistanceFieldPtr s = grid_ptr (snd s)"

definition gridToWorld :: "state \<Rightarrow> int \<Rightarrow> int \<Rightarrow> int \<Rightarrow> error + double \<times> double \<times> double" where
  "gridToWorld s x y z =
     (case deref s of Inl e \<Rightarrow> Inl e | Inr f \<Rightarrow> Inr (field_gridToWorld f x y z))"

definition worldToGrid :: "state \<Rightarrow> double \<Rightarrow> double \<Rightarrow> double \<Rightarrow> error + int \<times> int \<times> int" where
  "worldToGrid s wx wy wz =
     (case deref s of Inl e \<Rightarrow> Inl e | Inr f \<Rightarrow> Inr (field_worldToGrid f wx wy wz))"

definition getDistance :: "state \<Rightarrow> int \<Rightarrow> int \<Rightarrow> int \<Rightarrow> error + double" where
  "getDistance s x y z =
     (case deref s of Inl e \<Rightarrow> Inl e | Inr f \<Rightarrow> getDistanceFromCell f x y z)"

text \<open>
  The conversion \<open>(unsigned char) q\<close> of a \<open>double\<close>: the fractional part is discarded
  (truncation towards zero), and the result is defined only when the truncated value
  fits the destination type.
\<close>

definition trunc_toward_zero :: "double \<Rightarrow> int" where
  "trunc_toward_zero q = (if 0 \<le> q then \<lfloor>q\<rfloor> else \<lceil>q\<rceil>)"

definition uchar_of_double :: "double \<Rightarrow> error + 8 word" where
  "uchar_of_double q =
     (if 0 \<le> trunc_toward_zero q \<and> trunc_toward_zero q \<le> 255
      then Inr (word_of_int (trunc_toward_zero q))
      else Inl ConversionUndefined)"

text \<open>
  \<open>getCell(int, int, int)\<close> divides two doubles and converts the quotient. The machine's
  division rounds the quotient to a double, or gives an infinity or a NaN (a zero
  divisor, an overflow); it is the parameter \<open>fdiv\<close>, with \<open>None\<close> for a result that is
  not finite, whose conversion to \<open>unsigned char\<close> is undefined.
\<close>

definition getCell ::
  "(double \<Rightarrow> double \<Rightarrow> double option) \<Rightarrow> state \<Rightarrow> int \<Rightarrow> int \<Rightarrow> int \<Rightarrow> error + 8 word" where
  "getCell fdiv s x y z =
     (case deref s of Inl e \<Rightarrow> Inl e
      | Inr f \<Rightarrow>
          (case getDistanceFromCell f x y z of Inl e \<Rightarrow> Inl e
           | Inr d \<Rightarrow>
               (case fdiv d (grid_resolution (snd s)) of
                  None \<Rightarrow> Inl ConversionUndefined
                | Some q \<Rightarrow> uchar_of_double q)))"

text \<open>\<open>getCell(int *xyz)\<close> reads \<open>xyz[0]\<close>, \<open>xyz[1]\<close>, \<open>xyz[2]\<close>.\<close>

definition getCell_xyz :: "state \<Rightarrow> int list \<Rightarrow> error + double" where
  "getCell_xyz s xyz =
     (case deref s of Inl e \<Rightarrow> Inl e
      | Inr f \<Rightarrow>
          (if length xyz < 3 then Inl ArrayOutOfRange
           else getDistanceFromCell f (xyz ! 0) (xyz ! 1) (xyz ! 2)))"

text \<open>
  \<open>isInBounds\<close> is a chain of \<open>&&\<close>: when \<open>x >= 0\<close> is false the answer is false and
  the pointer is not followed.
\<close>

definition isInBounds :: "state \<Rightarrow> int \<Rightarrow> int \<Rightarrow> int \<Rightarrow> error + bool" where
  "isInBounds s x y z =
     (if \<not> x \<ge> 0 then Inr False
      else
        (case deref s of Inl e \<Rightarrow> Inl e
         | Inr f \<Rightarrow>
             Inr (x < getNumCells f DIM_X \<and>
                  y \<ge> 0 \<and> y < getNumCells f DIM_Y \<and>
                  z \<ge> 0 \<and> z < getNumCells f DIM_Z)))"

definition getReferenceFrame :: "state \<Rightarrow> string" where
  "getReferenceFrame s = reference_frame (snd s)"

definition setReferenceFrame :: "string \<Rightarrow> state \<Rightarrow> state" where
  "setReferenceFrame frame s = (fst s, (snd s)\<lparr>reference_frame := frame\<rparr>)"

section \<open>The obstacle-file loader\<close>

text \<open>The functions \<open>getCollisionCube\<close>, \<open>getCollisionCubes\<close> and \<open>getCollisionObjects\<close> of
  \<open>call_planner.cpp\<close>.\<close>

subsection \<open>The C library calls it makes\<close>

text \<open>
  \<open>isspace\<close> and \<open>isdigit\<close> in the C locale. A C string ends at its first NUL byte.
\<close>

definition isspace :: "char \<Rightarrow> bool" where
  "isspace c =
     (c = CHR '' '' \<or> c = CHR 0x09 \<or> c = CHR 0x0A \<or> c = CHR 0x0B \<or> c = CHR 0x0C \<or> c = CHR 0x0D)"

definition isdigit :: "char \<Rightarrow> bool" where
  "isdigit c = (48 \<le> (of_char c :: nat) \<and> (of_char c :: nat) \<le> 57)"

definition c_str :: "string \<Rightarrow> string" where
  "c_str s = takeWhile (\<lambda>c. c \<noteq> CHR 0x00) s"

text \<open>
  An open stream: the bytes not read yet and the end-of-file indicator that \<open>feof\<close>
  reads.
\<close>

record FILE =
  unread :: string
  eof_indicator :: bool

text \<open>
  \<open>fscanf(fCfg, "%s", sTemp)\<close>: white space is skipped, then the bytes up to the next
  white space are stored in \<open>sTemp\<close> with a final NUL. The result is the return value
  (\<open>EOF\<close>, that is \<open>-1\<close>, when the input ends before a token starts; \<open>1\<close> otherwise), the
  C string now in \<open>sTemp\<close> when one was stored (\<open>None\<close>: \<open>sTemp\<close> is left as it was), and
  the stream. The indicator is set when the scan ran into the end of the input, which
  it also does while reading a token that nothing follows.
\<close>

definition fscanf_s :: "FILE \<Rightarrow> error + (int \<times> string option \<times> FILE)" where
  "fscanf_s f =
     (let rest = dropWhile isspace (unread f) in
      if rest = [] then Inr (- 1, None, \<lparr>unread = [], eof_indicator = True\<rparr>)
      else
        let tok = takeWhile (\<lambda>c. \<not> isspace c) rest;
            rest' = dropWhile (\<lambda>c. \<not> isspace c) rest
        in if 1024 < length tok + 1 then Inl BufferOverflow
           else Inr (1, Some (c_str tok), \<lparr>unread = rest', eof_indicator = (rest' = [])\<rparr>))"

text \<open>\<open>atoi\<close>: optional white space, an optional sign, then the decimal digits.\<close>

definition atoi :: "string \<Rightarrow> error + int" where
  "atoi s =
     (let s1 = dropWhile isspace s;
          neg = (s1 \<noteq> [] \<and> hd s1 = CHR ''-'');
          s2 = (if s1 \<noteq> [] \<and> (hd s1 = CHR ''-'' \<or> hd s1 = CHR ''+'') then tl s1 else s1);
          n = foldl (\<lambda>a c. 10 * a + (int (of_char c) - 48)) 0 (takeWhile isdigit s2);
          v = (if neg then - n else n)
      in if - 2147483648 \<le> v \<and> v \<le> 2147483647 then Inr v else Inl IntegerOverflow)"

text \<open>\<open>vector::resize(n)\<close> with the value new elements get.\<close>

definition resize :: "nat \<Rightarrow> 'a \<Rightarrow> 'a list \<Rightarrow> 'a list" where
  "resize n v xs = take n xs @ replicate (n - length xs) v"

subsection \<open>Messages\<close>

text \<open>
  The parts of the \<open>arm_navigation_msgs\<close> and \<open>geometry_msgs\<close> messages that the loader
  fills. The loader stores doubles and never computes with them: their type is the
  parameter \<open>'d\<close>, and \<open>atof\<close> is a parameter of the loader. The time stamp's type is
  \<open>'t\<close>; \<open>now i\<close> is what \<open>ros::Time::now()\<close> returns while object \<open>i\<close> is built.
\<close>

datatype ShapeType = BOX

datatype CollisionObjectOperation = ADD

record 'd Pose =
  position :: "'d \<times> 'd \<times> 'd"
  orientation :: "'d \<times> 'd \<times> 'd \<times> 'd"

record 'd Shape =
  shape_type :: ShapeType
  dimensions :: "'d list"

record ('d, 't) CollisionObject =
  object_id :: string
  operation :: CollisionObjectOperation
  frame_id :: string
  stamp :: 't
  shapes :: "'d Shape list"
  poses :: "'d Pose list"

subsection \<open>getCollisionCube, getCollisionCubes\<close>

definition getCollisionCube ::
  "'t \<Rightarrow> 'd::zero Pose \<Rightarrow> 'd list \<Rightarrow> string \<Rightarrow> string \<Rightarrow> error + ('d, 't) CollisionObject" where
  "getCollisionCube now pose dims frame oid =
     (if length dims < 3 then Inl ArrayOutOfRange
      else Inr \<lparr>object_id = oid, operation = ADD, frame_id = frame, stamp = now,
                shapes = [\<lparr>shape_type = BOX,
                           dimensions = (resize 3 0 [])[0 := dims ! 0, 1 := dims ! 1, 2 := dims ! 2]\<rparr>],
                poses = [pose]\<rparr>)"

text \<open>
  The loop of \<open>getCollisionCubes\<close>, \<open>k\<close> iterations from index \<open>i\<close>. \<open>objects[i][0..5]\<close> are
  unchecked reads; \<open>object_ids.at(i)\<close> is a checked one. The position and the dimensions
  are overwritten in every iteration, the orientation is the constant \<open>(0, 0, 0, 1)\<close>.
\<close>

fun cubes_loop ::
  "(nat \<Rightarrow> 't) \<Rightarrow> 'd::{zero,one} list list \<Rightarrow> string list \<Rightarrow> string \<Rightarrow> nat \<Rightarrow> nat \<Rightarrow>
   ('d, 't) CollisionObject list \<Rightarrow> error + ('d, 't) CollisionObject list" where
  "cubes_loop now objects object_ids frame 0 i objs = Inr objs"
| "cubes_loop now objects object_ids frame (Suc k) i objs =
     (let row = objects ! i in
      if length row < 6 then Inl ArrayOutOfRange
      else if length object_ids \<le> i then Inl OutOfRangeException
      else
        (case getCollisionCube (now i)
                \<lparr>position = (row ! 0, row ! 1, row ! 2), orientation = (0, 0, 0, 1)\<rparr>
                [row ! 3, row ! 4, row ! 5] frame (object_ids ! i) of
           Inl e \<Rightarrow> Inl e
         | Inr ob \<Rightarrow> cubes_loop now objects object_ids frame k (Suc i) (objs @ [ob])))"

definition getCollisionCubes ::
  "(nat \<Rightarrow> 't) \<Rightarrow> 'd::{zero,one} list list \<Rightarrow> string list \<Rightarrow> string \<Rightarrow>
   error + ('d, 't) CollisionObject list" where
  "getCollisionCubes now objects object_ids frame =
     (if length object_ids \<noteq> length objects then Inr []
      else cubes_loop now objects object_ids frame (length objects) 0 [])"

subsection \<open>getCollisionObjects\<close>

text \<open>
  The inner loop, \<open>k\<close> iterations from field \<open>j\<close>: a token is scanned, and the field is
  assigned only if the indicator is clear and \<open>sTemp\<close> is not empty. The state is the
  stream, \<open>sTemp\<close> and the row \<open>objects[i]\<close>.
\<close>

fun read_fields ::
  "(string \<Rightarrow> 'd) \<Rightarrow> nat \<Rightarrow> nat \<Rightarrow> FILE \<times> string \<times> 'd list \<Rightarrow> error + FILE \<times> string \<times> 'd list" where
  "read_fields atof 0 j st = Inr st"
| "read_fields atof (Suc k) j (f, sTemp, row) =
     (case fscanf_s f of
        Inl e \<Rightarrow> Inl e
      | Inr (r, w, f') \<Rightarrow>
          (let sTemp' = (case w of None \<Rightarrow> sTemp | Some t \<Rightarrow> t)
           in read_fields atof k (Suc j)
                (f', sTemp',
                 if \<not> eof_indicator f' \<and> length sTemp' \<noteq> 0 then row[j := atof sTemp'] else row)))"

text \<open>
  The outer loop, \<open>k\<close> iterations from object \<open>i\<close>: a token is scanned and \<open>sTemp\<close> is
  pushed as the id, whether the scan stored anything or not; \<open>objects[i]\<close> is resized to
  six doubles and the inner loop fills it.
\<close>

fun read_objects ::
  "(string \<Rightarrow> 'd::zero) \<Rightarrow> nat \<Rightarrow> nat \<Rightarrow> FILE \<times> string \<times> string list \<times> 'd list list \<Rightarrow>
   error + FILE \<times> string \<times> string list \<times> 'd list list" where
  "read_objects atof 0 i st = Inr st"
| "read_objects atof (Suc k) i (f, sTemp, object_ids, objects) =
     (case fscanf_s f of
        Inl e \<Rightarrow> Inl e
      | Inr (r, w, f1) \<Rightarrow>
          (let s1 = (case w of None \<Rightarrow> sTemp | Some t \<Rightarrow> t) in
           case read_fields atof 6 0 (f1, s1, resize 6 0 (objects ! i)) of
             Inl e \<Rightarrow> Inl e
           | Inr (f2, s2, row) \<Rightarrow>
               read_objects atof k (Suc i) (f2, s2, object_ids @ [s1], objects[i := row])))"

text \<open>
  The file system is a map from the C string of a path to the file's bytes; \<open>fopen\<close>
  gives \<open>NULL\<close> where it has none. The count is \<open>atoi\<close> of the first token; when the
  first scan stores nothing, \<open>sTemp\<close> is read uninitialised. \<open>objects.resize(num_obs)\<close>
  converts a negative count to a size no vector can have and throws. The messages
  printed on the way are no part of the result, and memory is not bounded: a count
  too large for the machine's memory is not represented.
\<close>

definition getCollisionObjects ::
  "(string \<Rightarrow> 'd::{zero,one}) \<Rightarrow> (nat \<Rightarrow> 't) \<Rightarrow> (string \<Rightarrow> string option) \<Rightarrow> string \<Rightarrow> string \<Rightarrow>
   error + ('d, 't) CollisionObject list" where
  "getCollisionObjects atof now fs filename frame =
     (case fs (c_str filename) of
        None \<Rightarrow> Inr []
      | Some contents \<Rightarrow>
          (case fscanf_s \<lparr>unread = contents, eof_indicator = False\<rparr> of
             Inl e \<Rightarrow> Inl e
           | Inr (r, w, f1) \<Rightarrow>
               (case w of
                  None \<Rightarrow> Inl UninitializedRead
                | Some s1 \<Rightarrow>
                    (case atoi s1 of
                       Inl e \<Rightarrow> Inl e
                     | Inr num_obs \<Rightarrow>
                         if num_obs < 0 then Inl LengthError
                         else
                           (case read_objects atof (nat num_obs) 0
                                   (f1, s1, [], resize (nat num_obs) [] []) of
                              Inl e \<Rightarrow> Inl e
                            | Inr (f2, s2, object_ids, objects) \<Rightarrow>
                                getCollisionCubes now objects object_ids frame)))))"

subsection \<open>What the loader reads, by position\<close>

text \<open>
  The tokens of a file: its maximal runs of bytes that are not white space, in order.
  \<open>ends_with_space\<close> tells whether white space follows the last token.
\<close>

function tokens :: "string \<Rightarrow> string list" where
  "tokens s =
     (if dropWhile isspace s = [] then []
      else takeWhile (\<lambda>c. \<not> isspace c) (dropWhile isspace s) #
           tokens (dropWhile (\<lambda>c. \<not> isspace c) (dropWhile isspace s)))"
  by pat_completeness auto
termination
proof (relation "measure length")
  show "wf (measure length)" by simp
next
  fix s :: string
  let ?r = "dropWhile isspace s"
  assume ne: "?r \<noteq> []"
  then obtain c cs where r: "?r = c # cs" by (cases ?r) auto
  from ne have "\<not> isspace (hd ?r)" by (rule hd_dropWhile)
  with r have "dropWhile (\<lambda>c. \<not> isspace c) ?r = dropWhile (\<lambda>c. \<not> isspace c) cs" by simp
  moreover have "length (dropWhile (\<lambda>c. \<not> isspace c) cs) \<le> length cs"
    by (rule length_dropWhile_le)
  moreover have "length ?r \<le> length s" by (rule length_dropWhile_le)
  ultimately have "length (dropWhile (\<lambda>c. \<not> isspace c) ?r) < length s"
    using r by simp
  then show "(dropWhile (\<lambda>c. \<not> isspace c) ?r, s) \<in> measure length" by simp
qed

declare tokens.simps [simp del]

definition ends_with_space :: "string \<Rightarrow> bool" where
  "ends_with_space s = (s \<noteq> [] \<and> isspace (last s))"

text \<open>
  The field read at position \<open>q\<close> of the token list \<open>all\<close> (position 0 is the count):
  \<open>atof\<close> of the token, unless there is no such token, or the token is the last one of
  a file that does not end in white space (the scan then sets the indicator and the
  assignment is skipped), or its C string is empty; the field then keeps the 0 that
  \<open>resize\<close> gave it.
\<close>

definition positional_field :: "(string \<Rightarrow> 'd::zero) \<Rightarrow> string list \<Rightarrow> bool \<Rightarrow> nat \<Rightarrow> 'd" where
  "positional_field atof all tr q =
     (if q < length all \<and> (Suc q < length all \<or> tr) \<and> c_str (all ! q) \<noteq> []
      then atof (c_str (all ! q)) else 0)"

definition record_fields :: "(string \<Rightarrow> 'd::zero) \<Rightarrow> string list \<Rightarrow> bool \<Rightarrow> nat \<Rightarrow> 'd list" where
  "record_fields atof all tr p = map (\<lambda>m. positional_field atof all tr (p + m)) [0..<6]"

text \<open>
  \<open>sTemp\<close> after \<open>q\<close> scans: the C string of token \<open>q - 1\<close>, or of the last token once
  the tokens have run out.
\<close>

definition last_read :: "string list \<Rightarrow> nat \<Rightarrow> string" where
  "last_read all q = c_str (all ! (min q (length all) - 1))"

text \<open>The object that \<open>getCollisionCubes\<close> builds from a row of six doubles and an id.\<close>

definition cube_of_row ::
  "'t \<Rightarrow> string \<Rightarrow> 'd::{zero,one} list \<Rightarrow> string \<Rightarrow> ('d, 't) CollisionObject" where
  "cube_of_row t frame row oid =
     \<lparr>object_id = oid, operation = ADD, frame_id = frame, stamp = t,
      shapes = [\<lparr>shape_type = BOX, dimensions = [row ! 3, row ! 4, row ! 5]\<rparr>],
      poses = [\<lparr>position = (row ! 0, row ! 1, row ! 2), orientation = (0, 0, 0, 1)\<rparr>]\<rparr>"

text \<open>
  Object \<open>i\<close> of a file, read by position: its id is the token at \<open>7 i + 1\<close> and its six
  fields are the tokens at \<open>7 i + 2\<close>, ..., \<open>7 i + 7\<close>, whatever those tokens are.
\<close>

definition positional_cube ::
  "(string \<Rightarrow> 'd::{zero,one}) \<Rightarrow> (nat \<Rightarrow> 't) \<Rightarrow> string \<Rightarrow> string list \<Rightarrow> bool \<Rightarrow> nat \<Rightarrow>
   ('d, 't) CollisionObject" where
  "positional_cube atof now frame all tr i =
     cube_of_row (now i) frame (record_fields atof all tr (7 * i + 2)) (last_read all (7 * i + 2))"

text \<open>
  The stream after one scan, and the relation between a stream and a position in the
  token list of the file: the tokens still unread are those from \<open>q\<close> on.
\<close>

definition advance :: "FILE \<Rightarrow> FILE" where
  "advance f =
     (if dropWhile isspace (unread f) = [] then \<lparr>unread = [], eof_indicator = True\<rparr>
      else \<lparr>unread = dropWhile (\<lambda>c. \<not> isspace c) (dropWhile isspace (unread f)),
            eof_indicator = (dropWhile (\<lambda>c. \<not> isspace c) (dropWhile isspace (unread f)) = [])\<rparr>)"

definition at_token :: "string list \<Rightarrow> bool \<Rightarrow> FILE \<Rightarrow> nat \<Rightarrow> bool" where
  "at_token all tr f q =
     (tokens (unread f) = drop q all \<and> (length all \<le> q \<or> ends_with_space (unread f) = tr))"

section \<open>The voxel field of the specification\<close>

text \<open>
  The header reads the field through \<open>getDistanceFromCell\<close> only. What stores the occupancy
  of the cells and propagates the distances is the distance-field library that the
  header includes; its code is not among the sources. The definitions of this section
  are written from sections 3 and 4.2 of the specification instead.
\<close>

type_synonym cell = "int \<times> int \<times> int"

text \<open>
  Modelled from the spec: the voxel field (the library's storage is missing), a dense
  array over a bounded volume in which every cell holds an occupancy flag and a cached
  distance to the nearest obstacle, with the grid's dimensions, its resolution and the
  propagation radius.
\<close>

record VoxelField =
  dimension :: "Dimension \<Rightarrow> int"
  resolution :: double
  propagation_radius :: double
  occupied :: "cell \<Rightarrow> bool"
  distance :: "cell \<Rightarrow> double"

text \<open>
  Modelled from the spec: the cells of the field (the library's bounds test is missing),
  the integer triples with each coordinate in \<open>[0, dimension)\<close> of its axis.
\<close>

definition in_bounds :: "VoxelField \<Rightarrow> cell \<Rightarrow> bool" where
  "in_bounds fld c =
     (case c of (ix, iy, iz) \<Rightarrow>
        0 \<le> ix \<and> ix < dimension fld DIM_X \<and> 0 \<le> iy \<and> iy < dimension fld DIM_Y \<and>
        0 \<le> iz \<and> iz < dimension fld DIM_Z)"

definition cells :: "VoxelField \<Rightarrow> cell list" where
  "cells fld =
     [(ix, iy, iz). ix \<leftarrow> [0..dimension fld DIM_X - 1], iy \<leftarrow> [0..dimension fld DIM_Y - 1],
                    iz \<leftarrow> [0..dimension fld DIM_Z - 1]]"

text \<open>
  Modelled from the spec: \<open>reset\<close> (the library's is missing) clears all cells to
  unoccupied and all distances to the propagation radius.
\<close>

definition reset :: "VoxelField \<Rightarrow> VoxelField" where
  "reset fld = fld\<lparr>occupied := (\<lambda>c. False), distance := (\<lambda>c. propagation_radius fld)\<rparr>"

text \<open>
  Modelled from the spec: \<open>markOccupied\<close> (the library's insertion of obstacle cells is
  missing) sets the occupancy flag of each given in-bounds cell; indices outside the
  bounds are dropped. The distances are left as they are until the next propagation.
\<close>

definition markOccupied :: "cell list \<Rightarrow> VoxelField \<Rightarrow> VoxelField" where
  "markOccupied cs fld =
     fld\<lparr>occupied := (\<lambda>c. occupied fld c \<or> (c \<in> set cs \<and> in_bounds fld c))\<rparr>"

text \<open>
  Modelled from the spec: \<open>propagate\<close> (the library's propagation is missing) recomputes
  the distance of every cell as the distance in world units to the nearest occupied
  cell, clamped at the propagation radius. The specification leaves the metric open
  (Euclidean, chessboard or Manhattan): \<open>metric a b\<close>, the distance between two cells in
  cell units, is a parameter, and the distance in world units is the resolution times
  it.
\<close>

definition nearest :: "(cell \<Rightarrow> cell \<Rightarrow> double) \<Rightarrow> VoxelField \<Rightarrow> cell \<Rightarrow> double" where
  "nearest metric fld c =
     foldr (\<lambda>obstacle d. min (resolution fld * metric c obstacle) d)
       (filter (occupied fld) (cells fld)) (propagation_radius fld)"

definition propagate :: "(cell \<Rightarrow> cell \<Rightarrow> double) \<Rightarrow> VoxelField \<Rightarrow> VoxelField" where
  "propagate metric fld =
     fld\<lparr>distance := (\<lambda>c. if in_bounds fld c then nearest metric fld c else distance fld c)\<rparr>"

text \<open>The chessboard metric, one of the choices the specification names.\<close>

definition chessboard :: "cell \<Rightarrow> cell \<Rightarrow> double" where
  "chessboard a b =
     (case a of (ax, ay, az) \<Rightarrow> case b of (bx, by, bz) \<Rightarrow>
        of_int (max \<bar>ax - bx\<bar> (max \<bar>ay - by\<bar> \<bar>az - bz\<bar>)))"

section \<open>Concrete inputs\<close>

text \<open>
  A field of \<open>n\<close> cells along each axis that reads no bounds: it answers every index, in
  range or not, with the distance \<open>far\<close>, the value every cell of a field without
  obstacles holds. Its cell \<open>(x, y, z)\<close> is the unit cube at \<open>(x, y, z)\<close>.
\<close>

definition uniform_field :: "int \<Rightarrow> double \<Rightarrow> PropagationDistanceField" where
  "uniform_field n far =
     \<lparr>getNumCells = (\<lambda>d. n),
      getDistanceFromCell = (\<lambda>x y z. Inr far),
      field_gridToWorld = (\<lambda>x y z. (of_int x, of_int y, of_int z)),
      field_worldToGrid = (\<lambda>wx wy wz. (\<lfloor>wx\<rfloor>, \<lfloor>wy\<rfloor>, \<lfloor>wz\<rfloor>))\<rparr>"

text \<open>
  The grid of \<open>main\<close>: 150 cells of 0.02 m along each axis, distances up to 0.2 m, without
  obstacles. The field lives at address 1.
\<close>

definition demo_grid :: OccupancyGrid where
  "demo_grid =
     \<lparr>grid_resolution = 1 / 50, prop_distance = 1 / 5, reference_frame = ''map'', grid_ptr = 1\<rparr>"

definition demo_state :: state where
  "demo_state = ((\<lambda>a. if a = 1 then Some (uniform_field 150 (1 / 5)) else None), demo_grid)"

text \<open>
  A finer grid: cells of \<open>1/1024\<close> m and distances up to \<open>1/2\<close> m, both doubles, whose
  quotient 512 is a double too, so that the machine's division returns it unrounded.
\<close>

definition fine_state :: state where
  "fine_state =
     ((\<lambda>a. if a = 1 then Some (uniform_field 150 (1 / 2)) else None),
      demo_grid\<lparr>grid_resolution := 1 / 1024, prop_distance := 1 / 2\<rparr>)"

text \<open>The division where it is exact; a zero divisor gives no finite quotient.\<close>

definition exact_quotient :: "double \<Rightarrow> double \<Rightarrow> double option" where
  "exact_quotient a b = (if b = 0 then None else Some (a / b))"

text \<open>
  A file system with one file. \<open>atof\<close> on the tokens the examples use: the value of the
  leading decimal digits, which is 0 for a token that starts with a letter such as
  \<open>a\<close> or \<open>b\<close>, where \<open>atof\<close> converts nothing.
\<close>

definition one_file :: "string \<Rightarrow> string \<Rightarrow> string \<Rightarrow> string option" where
  "one_file name contents = (\<lambda>p. if p = name then Some contents else None)"

text \<open>A clock that stamps object \<open>i\<close> with the time \<open>i\<close>.\<close>

definition clock :: "nat \<Rightarrow> nat" where
  "clock i = i"

definition atof_digits :: "string \<Rightarrow> rat" where
  "atof_digits s =
     of_int (foldl (\<lambda>a c. 10 * a + (int (of_char c) - 48)) 0 (takeWhile isdigit s))"

text \<open>
  Two obstacle files of two records. In the second one record \<open>a\<close> has three numbers
  where six are due.
\<close>

definition well_formed_file :: string where
  "well_formed_file = ''2\<newline>a 1 2 3 4 5 6\<newline>b 7 8 9 10 11 12\<newline>''"

definition short_record_file :: string where
  "short_record_file = ''2\<newline>a 1 2 3\<newline>b 1 2 3 4 5 6\<newline>''"

text \<open>
  A voxel field of 3 by 3 by 3 cells of 0.1 m with the propagation radius 0.2 m, reset and
  then given two obstacles, of which \<open>(7, 0, 0)\<close> lies outside the grid.
\<close>

definition small_field :: VoxelField where
  "small_field =
     markOccupied [(1, 1, 1), (7, 0, 0)]
       (reset \<lparr>dimension = (\<lambda>d. 3), resolution = 1 / 10, propagation_radius = 1 / 5,
               occupied = (\<lambda>c. True), distance = (\<lambda>c. 0)\<rparr>)"

section \<open>Bounds\<close>

lemma deref_Some: "h (grid_ptr g) = Some f \<Longrightarrow> deref (h, g) = Inr f"
  by (simp add: deref_def)

lemma isInBounds_valid:
  "h (grid_ptr g) = Some f \<Longrightarrow>
   isInBounds (h, g) x y z =
     Inr (0 \<le> x \<and> x < getNumCells f DIM_X \<and> 0 \<le> y \<and> y < getNumCells f DIM_Y \<and>
          0 \<le> z \<and> z < getNumCells f DIM_Z)"
  by (auto simp: isInBounds_def deref_Some)

lemma demo_state_field:
  "fst demo_state (grid_ptr (snd demo_state)) = Some (uniform_field 150 (1 / 5))"
  by (simp add: demo_state_def demo_grid_def)

lemma fine_state_field:
  "fst fine_state (grid_ptr (snd fine_state)) = Some (uniform_field 150 (1 / 2))"
  by (simp add: fine_state_def demo_grid_def)

text \<open>
  C5. On a grid whose field has \<open>nx\<close>, \<open>ny\<close>, \<open>nz\<close> cells along the axes, \<open>isInBounds\<close>
  answers true exactly for the triples with \<open>x\<close> in \<open>[0, nx)\<close>, \<open>y\<close> in \<open>[0, ny)\<close> and
  \<open>z\<close> in \<open>[0, nz)\<close>. On each axis the index equal to the dimension is out of bounds
  whatever the other two coordinates are, and the index one below it is in bounds as
  soon as the other two coordinates are in range (the axis then has a cell at all).
\<close>

theorem isInBounds_iff_in_range:
  assumes "h (grid_ptr g) = Some f"
    and "nx = getNumCells f DIM_X" and "ny = getNumCells f DIM_Y" and "nz = getNumCells f DIM_Z"
  shows "isInBounds (h, g) x y z = Inr (x \<in> {0..<nx} \<and> y \<in> {0..<ny} \<and> z \<in> {0..<nz})
    \<and> isInBounds (h, g) nx y z = Inr False
    \<and> isInBounds (h, g) x ny z = Inr False
    \<and> isInBounds (h, g) x y nz = Inr False
    \<and> (0 < nx \<and> y \<in> {0..<ny} \<and> z \<in> {0..<nz} \<longrightarrow> isInBounds (h, g) (nx - 1) y z = Inr True)
    \<and> (0 < ny \<and> x \<in> {0..<nx} \<and> z \<in> {0..<nz} \<longrightarrow> isInBounds (h, g) x (ny - 1) z = Inr True)
    \<and> (0 < nz \<and> x \<in> {0..<nx} \<and> y \<in> {0..<ny} \<longrightarrow> isInBounds (h, g) x y (nz - 1) = Inr True)"
  using assms by (simp add: isInBounds_valid)

text \<open>
  The theorem on the grid of \<open>main\<close>, at the cell \<open>(3, 0, 149)\<close>: 149 is the last index of
  every axis and 150 the first one out of bounds.
\<close>

theorem isInBounds_iff_in_range_witness:
  "isInBounds demo_state 3 0 149 = Inr True
   \<and> isInBounds demo_state 150 0 149 = Inr False
   \<and> isInBounds demo_state 3 150 149 = Inr False
   \<and> isInBounds demo_state 3 0 150 = Inr False
   \<and> isInBounds demo_state 149 0 149 = Inr True
   \<and> isInBounds demo_state 3 149 149 = Inr True"
  using isInBounds_iff_in_range [of "fst demo_state" "snd demo_state" "uniform_field 150 (1 / 5)"
      150 150 150 3 0 149]
  by (simp add: demo_state_field uniform_field_def)

section \<open>Distance queries\<close>

lemma getDistance_valid:
  "h (grid_ptr g) = Some f \<Longrightarrow> getDistance (h, g) x y z = getDistanceFromCell f x y z"
  by (simp add: getDistance_def deref_Some)

section \<open>The quantized distance\<close>

lemma trunc_toward_zero_nonneg: "0 \<le> q \<Longrightarrow> trunc_toward_zero q = \<lfloor>q\<rfloor>"
  by (simp add: trunc_toward_zero_def)

lemma uchar_of_double_in_range:
  assumes "0 \<le> q" and "q < 256"
  shows "uchar_of_double q = Inr (word_of_int \<lfloor>q\<rfloor>)"
    and "uint (word_of_int \<lfloor>q\<rfloor> :: 8 word) = \<lfloor>q\<rfloor>"
proof -
  have lo: "0 \<le> \<lfloor>q\<rfloor>" using assms(1) by simp
  have "\<lfloor>q\<rfloor> < 256" using assms(2) by (simp add: floor_less_iff)
  then have hi: "\<lfloor>q\<rfloor> \<le> 255" by simp
  show "uchar_of_double q = Inr (word_of_int \<lfloor>q\<rfloor>)"
    using lo hi assms(1) by (simp add: uchar_of_double_def trunc_toward_zero_nonneg)
  have "uint (word_of_int \<lfloor>q\<rfloor> :: 8 word) = \<lfloor>q\<rfloor> mod 256"
    by (simp add: uint_word_of_int)
  also have "\<dots> = \<lfloor>q\<rfloor>" using lo hi by simp
  finally show "uint (word_of_int \<lfloor>q\<rfloor> :: 8 word) = \<lfloor>q\<rfloor>" .
qed

text \<open>Whatever \<open>getCell\<close> returns is a byte: a quotient of 256 or more is never returned.\<close>

lemma getCell_below_256: "getCell fdiv s x y z = Inr w \<Longrightarrow> uint w < 256"
  using uint_bounded [of w] by simp

text \<open>
  C4 (as amended). Where \<open>getDistance\<close> returns \<open>d\<close> and the quotient \<open>q\<close> of \<open>d\<close> by the
  resolution, as the machine computes it, is at least 0 and below 256, \<open>getCell\<close> returns
  \<open>floor q\<close>.
\<close>

theorem getCell_floor_below_256:
  assumes "h (grid_ptr g) = Some f"
    and "getDistance (h, g) x y z = Inr d"
    and "fdiv d (grid_resolution g) = Some q"
    and "0 \<le> q" and "q < 256"
  shows "getCell fdiv (h, g) x y z = Inr (word_of_int \<lfloor>q\<rfloor>)
    \<and> uint (word_of_int \<lfloor>q\<rfloor> :: 8 word) = \<lfloor>q\<rfloor>"
proof -
  from assms(1,2) have "getDistanceFromCell f x y z = Inr d"
    by (simp add: getDistance_valid)
  with assms(1,3) have "getCell fdiv (h, g) x y z = uchar_of_double q"
    by (simp add: getCell_def deref_Some)
  with uchar_of_double_in_range [OF assms(4,5)] show ?thesis by simp
qed

text \<open>On the grid of \<open>main\<close>: the distance 0.2 over the resolution 0.02 is bucket 10.\<close>

theorem getCell_floor_below_256_witness:
  "getDistance demo_state 3 0 149 = Inr (1 / 5)
   \<and> exact_quotient (1 / 5) (grid_resolution (snd demo_state)) = Some 10
   \<and> getCell exact_quotient demo_state 3 0 149 = Inr 10
   \<and> uint (10 :: 8 word) = \<lfloor>10 :: rat\<rfloor>"
proof -
  have d: "getDistance (fst demo_state, snd demo_state) 3 0 149 = Inr (1 / 5)"
    by (simp add: getDistance_def deref_def demo_state_def demo_grid_def uniform_field_def)
  have q: "exact_quotient (1 / 5) (grid_resolution (snd demo_state)) = Some 10"
    by (simp add: exact_quotient_def demo_state_def demo_grid_def)
  show ?thesis
    using getCell_floor_below_256 [of "fst demo_state" "snd demo_state"
        "uniform_field 150 (1 / 5)" 3 0 149 "1 / 5" exact_quotient 10]
      demo_state_field d q
    by simp
qed

text \<open>
  C4 as stated fails: in the finer grid the cell \<open>(0, 0, 0)\<close> is in bounds, its distance
  is 0.5 and the quotient by the resolution is 512, which no \<open>unsigned char\<close> holds.
  C++ leaves the conversion undefined there; whatever comes of it, \<open>getCell\<close> does not
  return 512.
\<close>

theorem getCell_floor_counterexample:
  "isInBounds fine_state 0 0 0 = Inr True
   \<and> getDistance fine_state 0 0 0 = Inr (1 / 2)
   \<and> exact_quotient (1 / 2) (grid_resolution (snd fine_state)) = Some 512
   \<and> \<lfloor>512 :: rat\<rfloor> = 512
   \<and> map_sum id uint (getCell exact_quotient fine_state 0 0 0) \<noteq> Inr \<lfloor>512 :: rat\<rfloor>"
  by (simp add: isInBounds_def getDistance_def getCell_def deref_def fine_state_def
      demo_grid_def uniform_field_def exact_quotient_def uchar_of_double_def trunc_toward_zero_def)

section \<open>The pointer to the field\<close>



section \<open>The reference frame\<close>

text \<open>
  C9. After \<open>setReferenceFrame frame\<close>, \<open>getReferenceFrame\<close> returns \<open>frame\<close>. Nothing else
  changes: the store of fields is the same, the object differs from the old one in its
  frame name only (putting the old name back gives the old object), and so every query
  of the header returns what it returned before. \<open>getGridSize\<close>, \<open>getWorldSize\<close>,
  \<open>getOrigin\<close> and \<open>getResolution\<close> are declared in the header without a body; \<open>Q\<close> stands
  for any query computed from the store and the members other than the frame name.
\<close>

theorem setReferenceFrame_changes_frame_only:
  "getReferenceFrame (setReferenceFrame frame s) = frame
   \<and> fst (setReferenceFrame frame s) = fst s
   \<and> (snd (setReferenceFrame frame s))\<lparr>reference_frame := reference_frame (snd s)\<rparr> = snd s
   \<and> getDistance (setReferenceFrame frame s) x y z = getDistance s x y z
   \<and> getCell fdiv (setReferenceFrame frame s) x y z = getCell fdiv s x y z
   \<and> getCell_xyz (setReferenceFrame frame s) xyz = getCell_xyz s xyz
   \<and> isInBounds (setReferenceFrame frame s) x y z = isInBounds s x y z
   \<and> gridToWorld (setReferenceFrame frame s) x y z = gridToWorld s x y z
   \<and> worldToGrid (setReferenceFrame frame s) wx wy wz = worldToGrid s wx wy wz
   \<and> getDistanceFieldPtr (setReferenceFrame frame s) = getDistanceFieldPtr s
   \<and> Q (fst (setReferenceFrame frame s)) (grid_resolution (snd (setReferenceFrame frame s)))
        (prop_distance (snd (setReferenceFrame frame s))) (grid_ptr (snd (setReferenceFrame frame s)))
      = Q (fst s) (grid_resolution (snd s)) (prop_distance (snd s)) (grid_ptr (snd s))"
  by (simp add: setReferenceFrame_def getReferenceFrame_def getDistance_def getCell_def
      getCell_xyz_def isInBounds_def gridToWorld_def worldToGrid_def getDistanceFieldPtr_def
      deref_def cong: sum.case_cong option.case_cong)

section \<open>What the loader returns\<close>

subsection \<open>Scanning a token\<close>

lemma tokens_Nil_iff: "tokens s = [] \<longleftrightarrow> dropWhile isspace s = []"
  by (subst tokens.simps) simp

lemma tokens_Nil: "tokens [] = []"
  by (simp add: tokens_Nil_iff)

lemma tokens_Cons:
  "dropWhile isspace s \<noteq> [] \<Longrightarrow>
   tokens s = takeWhile (\<lambda>c. \<not> isspace c) (dropWhile isspace s) #
              tokens (dropWhile (\<lambda>c. \<not> isspace c) (dropWhile isspace s))"
  by (subst tokens.simps) simp

lemma last_dropWhile: "dropWhile P xs \<noteq> [] \<Longrightarrow> last (dropWhile P xs) = last xs"
proof -
  assume ne: "dropWhile P xs \<noteq> []"
  have "last xs = last (takeWhile P xs @ dropWhile P xs)" by simp
  also have "\<dots> = last (dropWhile P xs)" using ne by (rule last_appendR)
  finally show ?thesis by simp
qed

lemma dropWhile_Nil_last: "dropWhile P xs = [] \<Longrightarrow> xs \<noteq> [] \<Longrightarrow> P (last xs)"
  by (simp add: dropWhile_eq_Nil_conv)

lemma takeWhile_last: "takeWhile P xs \<noteq> [] \<Longrightarrow> P (last (takeWhile P xs))"
  using set_takeWhileD [of "last (takeWhile P xs)" P xs] by simp

lemma ends_with_space_after_token:
  assumes r: "dropWhile isspace u \<noteq> []"
  defines "u' \<equiv> dropWhile (\<lambda>c. \<not> isspace c) (dropWhile isspace u)"
  shows "u' \<noteq> [] \<Longrightarrow> ends_with_space u' = ends_with_space u"
    and "u' = [] \<Longrightarrow> \<not> ends_with_space u"
proof -
  have une: "u \<noteq> []" using r by auto
  { assume ne: "u' \<noteq> []"
    then have "last u' = last (dropWhile isspace u)" unfolding u'_def by (rule last_dropWhile)
    also have "\<dots> = last u" using r by (rule last_dropWhile)
    finally show "ends_with_space u' = ends_with_space u"
      using ne une by (simp add: ends_with_space_def) }
  { assume e: "u' = []"
    let ?r = "dropWhile isspace u"
    have "?r = takeWhile (\<lambda>c. \<not> isspace c) ?r @ u'" unfolding u'_def by simp
    with e have eq: "takeWhile (\<lambda>c. \<not> isspace c) ?r = ?r" by simp
    with r have "takeWhile (\<lambda>c. \<not> isspace c) ?r \<noteq> []" by metis
    then have "\<not> isspace (last (takeWhile (\<lambda>c. \<not> isspace c) ?r))"
      by (rule takeWhile_last [of "\<lambda>c. \<not> isspace c"])
    with eq have "\<not> isspace (last ?r)" by metis
    then have "\<not> isspace (last u)" using last_dropWhile [OF r] by simp
    then show "\<not> ends_with_space u" by (simp add: ends_with_space_def) }
qed

lemma tokens_Nil_ends_with_space: "tokens s = [] \<Longrightarrow> s \<noteq> [] \<Longrightarrow> ends_with_space s"
  by (simp add: tokens_Nil_iff ends_with_space_def dropWhile_Nil_last)

lemma fscanf_s_at_token:
  assumes inv: "at_token all tr f q" and short: "\<forall>t\<in>set all. length t < 1024"
  shows "fscanf_s f =
           Inr (if q < length all then 1 else - 1,
                if q < length all then Some (c_str (all ! q)) else None, advance f)"
    and "at_token all tr (advance f) (Suc q)"
    and "eof_indicator (advance f) = (\<not> (q < length all \<and> (Suc q < length all \<or> tr)))"
proof -
  let ?u = "unread f"
  let ?r = "dropWhile isspace ?u"
  let ?u' = "dropWhile (\<lambda>c. \<not> isspace c) ?r"
  from inv have toks: "tokens ?u = drop q all"
    and tr: "length all \<le> q \<or> ends_with_space ?u = tr"
    by (simp_all add: at_token_def)
  show "fscanf_s f =
           Inr (if q < length all then 1 else - 1,
                if q < length all then Some (c_str (all ! q)) else None, advance f)"
  proof (cases "q < length all")
    case True
    then have "tokens ?u \<noteq> []" using toks by simp
    then have r: "?r \<noteq> []" by (simp add: tokens_Nil_iff)
    from tokens_Cons [OF r] toks True
    have hd: "takeWhile (\<lambda>c. \<not> isspace c) ?r = all ! q"
      by (metis hd_drop_conv_nth list.sel(1))
    have "all ! q \<in> set all" using True by simp
    with short have "length (all ! q) < 1024" by blast
    with r hd True show ?thesis
      by (simp add: fscanf_s_def advance_def Let_def del: dropWhile_eq_Nil_conv)
  next
    case False
    then have "tokens ?u = []" using toks by simp
    then have "?r = []" by (simp add: tokens_Nil_iff)
    with False show ?thesis
      by (simp add: fscanf_s_def advance_def del: dropWhile_eq_Nil_conv)
  qed
  show "at_token all tr (advance f) (Suc q)"
  proof (cases "q < length all")
    case True
    then have "tokens ?u \<noteq> []" using toks by simp
    then have r: "?r \<noteq> []" by (simp add: tokens_Nil_iff)
    from tokens_Cons [OF r] toks have tl: "tokens ?u' = drop (Suc q) all"
      by (metis drop_Suc list.sel(3) tl_drop)
    have "length all \<le> Suc q \<or> ends_with_space ?u' = tr"
    proof (cases "Suc q < length all")
      case True
      then have "tokens ?u' \<noteq> []" using tl by simp
      then have "?u' \<noteq> []" by (metis tokens_Nil)
      then have "ends_with_space ?u' = ends_with_space ?u"
        using ends_with_space_after_token(1) [OF r] by simp
      with tr True show ?thesis by simp
    next
      case False
      then show ?thesis by simp
    qed
    with tl r show ?thesis
      by (simp add: at_token_def advance_def del: dropWhile_eq_Nil_conv)
  next
    case False
    then have "tokens ?u = []" using toks by simp
    then have "?r = []" by (simp add: tokens_Nil_iff)
    with False show ?thesis
      by (simp add: at_token_def advance_def tokens_Nil_iff del: dropWhile_eq_Nil_conv)
  qed
  show "eof_indicator (advance f) = (\<not> (q < length all \<and> (Suc q < length all \<or> tr)))"
  proof (cases "q < length all")
    case True
    then have "tokens ?u \<noteq> []" using toks by simp
    then have r: "?r \<noteq> []" by (simp add: tokens_Nil_iff)
    from tokens_Cons [OF r] toks have tl: "tokens ?u' = drop (Suc q) all"
      by (metis drop_Suc list.sel(3) tl_drop)
    from tr True have etr: "ends_with_space ?u = tr" by simp
    have "(?u' = []) = (\<not> (Suc q < length all \<or> tr))"
    proof (cases "?u' = []")
      case True
      then have "tokens ?u' = []" by (metis tokens_Nil)
      with tl have "\<not> Suc q < length all" by simp
      moreover have "\<not> tr" using ends_with_space_after_token(2) [OF r True] etr by simp
      ultimately show ?thesis using True by simp
    next
      case False
      show ?thesis
      proof (cases "Suc q < length all")
        case True
        with False show ?thesis by simp
      next
        case nlt: False
        then have "tokens ?u' = []" using tl by simp
        then have "ends_with_space ?u'" using False by (rule tokens_Nil_ends_with_space)
        then have "tr" using ends_with_space_after_token(1) [OF r False] etr by simp
        with False show ?thesis by simp
      qed
    qed
    with r True show ?thesis by (simp add: advance_def del: dropWhile_eq_Nil_conv)
  next
    case False
    then have "tokens ?u = []" using toks by simp
    then have "?r = []" by (simp add: tokens_Nil_iff)
    with False show ?thesis by (simp add: advance_def del: dropWhile_eq_Nil_conv)
  qed
qed


subsection \<open>The loops\<close>

lemma last_read_Suc:
  "last_read all (Suc q) = (if q < length all then c_str (all ! q) else last_read all q)"
  by (simp add: last_read_def min_def)

lemma read_fields_Suc_at:
  assumes inv: "at_token all tr f q" and short: "\<forall>t\<in>set all. length t < 1024"
  shows "read_fields atof (Suc k) j (f, last_read all q, row) =
         read_fields atof k (Suc j)
           (advance f, last_read all (Suc q),
            row[j := (if q < length all \<and> (Suc q < length all \<or> tr) \<and> c_str (all ! q) \<noteq> []
                      then atof (c_str (all ! q)) else row ! j)])"
proof (cases "q < length all")
  case True
  then show ?thesis
    using fscanf_s_at_token(1,3) [OF inv short]
    by (simp add: last_read_Suc Let_def)
next
  case False
  then show ?thesis
    using fscanf_s_at_token(1,3) [OF inv short]
    by (simp add: last_read_Suc Let_def)
qed

lemma map_upt_Suc_shift: "map g [0..<Suc k] = g 0 # map (\<lambda>m. g (Suc m)) [0..<k]"
proof -
  have "[0..<Suc k] = 0 # map Suc [0..<k]"
    by (simp add: upt_conv_Cons map_Suc_upt del: upt_Suc)
  then show ?thesis by (simp add: comp_def del: upt_Suc)
qed

lemma read_fields_at:
  assumes short: "\<forall>t\<in>set all. length t < 1024"
  shows "at_token all tr f q \<Longrightarrow> j + k \<le> length row \<Longrightarrow>
         (\<forall>m. j \<le> m \<and> m < j + k \<longrightarrow> row ! m = 0) \<Longrightarrow>
         read_fields atof k j (f, last_read all q, row) =
           Inr ((advance ^^ k) f, last_read all (q + k),
                take j row @ map (\<lambda>m. positional_field atof all tr (q + m)) [0..<k] @
                drop (j + k) row)
         \<and> at_token all tr ((advance ^^ k) f) (q + k)"
proof (induction k arbitrary: f q j row)
  case 0
  then show ?case by simp
next
  case (Suc k)
  let ?v = "positional_field atof all tr q"
  let ?row = "row[j := ?v]"
  from Suc.prems have j: "j < length row" and z: "row ! j = 0" by simp_all
  have v: "(if q < length all \<and> (Suc q < length all \<or> tr) \<and> c_str (all ! q) \<noteq> []
            then atof (c_str (all ! q)) else row ! j) = ?v"
    unfolding z positional_field_def ..
  have step: "read_fields atof (Suc k) j (f, last_read all q, row) =
              read_fields atof k (Suc j) (advance f, last_read all (Suc q), ?row)"
    using read_fields_Suc_at [OF Suc.prems(1) short, of atof k j row] unfolding v .
  have inv': "at_token all tr (advance f) (Suc q)"
    by (rule fscanf_s_at_token(2) [OF Suc.prems(1) short])
  have len: "Suc j + k \<le> length ?row" using Suc.prems(2) by simp
  have zeros: "\<forall>m. Suc j \<le> m \<and> m < Suc j + k \<longrightarrow> ?row ! m = 0"
    using Suc.prems(3) by simp
  from Suc.IH [OF inv' len zeros]
  have ih: "read_fields atof k (Suc j) (advance f, last_read all (Suc q), ?row) =
              Inr ((advance ^^ k) (advance f), last_read all (Suc q + k),
                   take (Suc j) ?row @
                   map (\<lambda>m. positional_field atof all tr (Suc q + m)) [0..<k] @
                   drop (Suc j + k) ?row)"
    and inv'': "at_token all tr ((advance ^^ k) (advance f)) (Suc q + k)"
    by simp_all
  have t: "take (Suc j) ?row = take j row @ [?v]"
    using j by (simp add: take_Suc_conv_app_nth)
  have d: "drop (Suc j + k) ?row = drop (j + Suc k) row" by simp
  have m: "map (\<lambda>m. positional_field atof all tr (q + m)) [0..<Suc k] =
           ?v # map (\<lambda>m. positional_field atof all tr (Suc q + m)) [0..<k]"
    using map_upt_Suc_shift [of "\<lambda>m. positional_field atof all tr (q + m)" k] by simp
  show ?case
    unfolding step ih t d m using inv'' by (simp add: funpow_swap1)
qed

lemma read_fields_6_at:
  assumes inv: "at_token all tr f q" and short: "\<forall>t\<in>set all. length t < 1024"
  shows "read_fields atof 6 0 (f, last_read all q, resize 6 0 []) =
         Inr ((advance ^^ 6) f, last_read all (q + 6), record_fields atof all tr q)"
    and "at_token all tr ((advance ^^ 6) f) (q + 6)"
  using read_fields_at [OF short inv, of 0 6 "resize 6 0 []" atof]
  by (simp_all add: resize_def record_fields_def)


lemma read_objects_Suc_at:
  assumes inv: "at_token all tr f q" and short: "\<forall>t\<in>set all. length t < 1024"
    and empty: "objects ! i = []"
  shows "read_objects atof (Suc k) i (f, last_read all q, object_ids, objects) =
         read_objects atof k (Suc i)
           ((advance ^^ 7) f, last_read all (q + 7), object_ids @ [last_read all (Suc q)],
            objects[i := record_fields atof all tr (Suc q)])"
    and "at_token all tr ((advance ^^ 7) f) (q + 7)"
proof -
  have inv1: "at_token all tr (advance f) (Suc q)"
    by (rule fscanf_s_at_token(2) [OF inv short])
  have s1: "(case (if q < length all then Some (c_str (all ! q)) else None) of
              None \<Rightarrow> last_read all q | Some t \<Rightarrow> t) = last_read all (Suc q)"
    by (simp add: last_read_Suc)
  have seven: "(advance ^^ 6) (advance f) = (advance ^^ 7) f"
    by (simp add: numeral_eq_Suc funpow_swap1)
  show "at_token all tr ((advance ^^ 7) f) (q + 7)"
    using read_fields_6_at(2) [OF inv1 short] by (simp add: seven add.commute)
  show "read_objects atof (Suc k) i (f, last_read all q, object_ids, objects) =
         read_objects atof k (Suc i)
           ((advance ^^ 7) f, last_read all (q + 7), object_ids @ [last_read all (Suc q)],
            objects[i := record_fields atof all tr (Suc q)])"
    using read_fields_6_at(1) [OF inv1 short, of atof]
    by (simp add: fscanf_s_at_token(1) [OF inv short] s1 empty seven Let_def add.commute)
qed

lemma read_objects_at:
  assumes short: "\<forall>t\<in>set all. length t < 1024"
  shows "at_token all tr f q \<Longrightarrow> i + k \<le> length objects \<Longrightarrow>
         (\<forall>m. i \<le> m \<and> m < i + k \<longrightarrow> objects ! m = []) \<Longrightarrow>
         read_objects atof k i (f, last_read all q, object_ids, objects) =
           Inr ((advance ^^ (7 * k)) f, last_read all (q + 7 * k),
                object_ids @ map (\<lambda>m. last_read all (q + 7 * m + 1)) [0..<k],
                take i objects @ map (\<lambda>m. record_fields atof all tr (q + 7 * m + 1)) [0..<k] @
                drop (i + k) objects)"
proof (induction k arbitrary: f q i object_ids objects)
  case 0
  then show ?case by simp
next
  case (Suc k)
  let ?R = "record_fields atof all tr (Suc q)"
  let ?objects = "objects[i := ?R]"
  from Suc.prems have i: "i < length objects" and e: "objects ! i = []" by simp_all
  note step1 = read_objects_Suc_at(1) [OF Suc.prems(1) short e,
      where atof = atof and k = k and object_ids = object_ids]
  note step2 = read_objects_Suc_at(2) [OF Suc.prems(1) short e]
  have len: "Suc i + k \<le> length ?objects" using Suc.prems(2) by simp
  have empties: "\<forall>m. Suc i \<le> m \<and> m < Suc i + k \<longrightarrow> ?objects ! m = []"
    using Suc.prems(3) by simp
  note ih = Suc.IH [OF step2 len empties,
      where object_ids = "object_ids @ [last_read all (Suc q)]"]
  have t: "take (Suc i) ?objects = take i objects @ [?R]"
    using i by (simp add: take_Suc_conv_app_nth)
  have d: "drop (Suc i + k) ?objects = drop (i + Suc k) objects" by simp
  have m1: "map (\<lambda>m. last_read all (q + 7 * m + 1)) [0..<Suc k] =
            last_read all (Suc q) # map (\<lambda>m. last_read all (q + 7 + 7 * m + 1)) [0..<k]"
    using map_upt_Suc_shift [of "\<lambda>m. last_read all (q + 7 * m + 1)" k]
    by (simp add: add.commute add.left_commute)
  have m2: "map (\<lambda>m. record_fields atof all tr (q + 7 * m + 1)) [0..<Suc k] =
            ?R # map (\<lambda>m. record_fields atof all tr (q + 7 + 7 * m + 1)) [0..<k]"
    using map_upt_Suc_shift [of "\<lambda>m. record_fields atof all tr (q + 7 * m + 1)" k]
    by (simp add: add.commute add.left_commute)
  have f: "(advance ^^ (7 * k)) ((advance ^^ 7) f) = (advance ^^ (7 * Suc k)) f"
  proof -
    have "7 * Suc k = 7 * k + 7" by simp
    then show ?thesis by (simp only: funpow_add o_apply)
  qed
  have q: "q + 7 + 7 * k = q + 7 * Suc k" by simp
  show ?case
    unfolding step1 ih t d m1 m2 f q by simp
qed


lemma getCollisionCube_of_row:
  "getCollisionCube t \<lparr>position = (row ! 0, row ! 1, row ! 2), orientation = (0, 0, 0, 1)\<rparr>
     [row ! 3, row ! 4, row ! 5] frame oid = Inr (cube_of_row t frame row oid)"
  by (simp add: getCollisionCube_def cube_of_row_def resize_def numeral_eq_Suc)

lemma cubes_loop_eq:
  "length object_ids = length objects \<Longrightarrow> i + k \<le> length objects \<Longrightarrow>
   (\<forall>m<length objects. 6 \<le> length (objects ! m)) \<Longrightarrow>
   cubes_loop now objects object_ids frame k i objs =
     Inr (objs @ map (\<lambda>m. cube_of_row (now m) frame (objects ! m) (object_ids ! m)) [i..<i + k])"
proof (induction k arbitrary: i objs)
  case 0
  then show ?case by simp
next
  case (Suc k)
  from Suc.prems have i: "i < length objects" by simp
  with Suc.prems have row: "\<not> length (objects ! i) < 6" by (simp add: not_less)
  from i Suc.prems(1) have ids: "\<not> length object_ids \<le> i" by simp
  have upt: "[i..<i + Suc k] = i # [Suc i..<Suc i + k]"
    by (simp add: upt_conv_Cons del: upt_Suc)
  have "Suc i + k \<le> length objects" using Suc.prems(2) by simp
  note ih = Suc.IH [OF Suc.prems(1) this Suc.prems(3)]
  have "cubes_loop now objects object_ids frame (Suc k) i objs =
        cubes_loop now objects object_ids frame k (Suc i)
          (objs @ [cube_of_row (now i) frame (objects ! i) (object_ids ! i)])"
    unfolding cubes_loop.simps Let_def using row ids
    by (simp only: if_False getCollisionCube_of_row sum.case)
  then show ?case unfolding ih upt by simp
qed

lemma getCollisionCubes_eq:
  assumes "length object_ids = length objects"
    and "\<forall>m<length objects. 6 \<le> length (objects ! m)"
  shows "getCollisionCubes now objects object_ids frame =
     Inr (map (\<lambda>m. cube_of_row (now m) frame (objects ! m) (object_ids ! m)) [0..<length objects])"
  using cubes_loop_eq [OF assms(1) _ assms(2), of 0 "length objects" now frame "[]"] assms(1)
  by (simp add: getCollisionCubes_def)

subsection \<open>The result of the loader\<close>

lemma positional_field_exhausted: "length all \<le> q \<Longrightarrow> positional_field atof all tr q = 0"
  by (simp add: positional_field_def)

lemma positional_field_read:
  "Suc q < length all \<Longrightarrow> c_str (all ! q) \<noteq> [] \<Longrightarrow>
   positional_field atof all tr q = atof (c_str (all ! q))"
  by (simp add: positional_field_def)

text \<open>
  C6 (as amended). The loader does not detect malformed records: it reads the tokens
  of the file by position. When the file opens, its first token is a count \<open>n \<ge> 0\<close> and
  no token overflows the buffer, the loader returns exactly \<open>n\<close> objects, whatever the
  records contain: object \<open>i\<close> takes its id from token \<open>7 i + 1\<close> and its fields from the
  six tokens after it, each as \<open>positional_field\<close> says: \<open>atof\<close> of the token (which is
  0 for a token that is no number), or the initial 0 when the file has no token left
  for the field. No record is skipped, and a record with too few values takes the
  tokens of the next one.
\<close>

theorem getCollisionObjects_positional:
  assumes opened: "fs (c_str filename) = Some contents"
    and count: "tokens contents \<noteq> []"
    and short: "\<forall>t\<in>set (tokens contents). length t < 1024"
    and n: "atoi (c_str (hd (tokens contents))) = Inr n" and nonneg: "0 \<le> n"
  shows "getCollisionObjects atof now fs filename frame =
     Inr (map (positional_cube atof now frame (tokens contents) (ends_with_space contents))
            [0..<nat n])"
proof -
  let ?all = "tokens contents" and ?tr = "ends_with_space contents"
  let ?f0 = "\<lparr>unread = contents, eof_indicator = False\<rparr>"
  let ?objects = "map (\<lambda>m. record_fields atof ?all ?tr (1 + 7 * m + 1)) [0..<nat n]"
  let ?ids = "map (\<lambda>m. last_read ?all (1 + 7 * m + 1)) [0..<nat n]"
  have a0: "at_token ?all ?tr ?f0 0" by (simp add: at_token_def)
  have a1: "at_token ?all ?tr (advance ?f0) (Suc 0)"
    by (rule fscanf_s_at_token(2) [OF a0 short])
  have scan: "fscanf_s ?f0 = Inr (1, Some (c_str (hd ?all)), advance ?f0)"
    using fscanf_s_at_token(1) [OF a0 short] count by (simp add: hd_conv_nth)
  have s1: "c_str (hd ?all) = last_read ?all (Suc 0)"
    using count by (simp add: last_read_Suc hd_conv_nth)
  have "read_objects atof (nat n) 0
          (advance ?f0, last_read ?all (Suc 0), [], resize (nat n) [] []) =
        Inr ((advance ^^ (7 * nat n)) (advance ?f0), last_read ?all (Suc 0 + 7 * nat n),
             ?ids, ?objects)"
    using read_objects_at [OF short a1, of 0 "nat n" "resize (nat n) [] []" atof "[]"]
    by (simp add: resize_def)
  moreover have "getCollisionCubes now ?objects ?ids frame =
        Inr (map (positional_cube atof now frame ?all ?tr) [0..<nat n])"
    using getCollisionCubes_eq [of ?ids ?objects now frame]
    by (simp add: positional_cube_def record_fields_def add.commute)
  ultimately show ?thesis
    using opened scan n nonneg by (simp add: getCollisionObjects_def s1)
qed

text \<open>The theorem on a well-formed file of two records.\<close>

lemma tokens_well_formed_file:
  "tokens well_formed_file =
     [''2'', ''a'', ''1'', ''2'', ''3'', ''4'', ''5'', ''6'', ''b'', ''7'', ''8'', ''9'', ''10'', ''11'', ''12'']"
  by (simp add: well_formed_file_def tokens.simps isspace_def)

lemma ends_well_formed_file: "ends_with_space well_formed_file"
  by (simp add: well_formed_file_def ends_with_space_def isspace_def)

theorem getCollisionObjects_positional_witness:
  "getCollisionObjects atof_digits clock (one_file ''objects.txt'' well_formed_file)
     ''objects.txt'' ''map'' =
   Inr [\<lparr>object_id = ''a'', operation = ADD, frame_id = ''map'', stamp = 0,
         shapes = [\<lparr>shape_type = BOX, dimensions = [4, 5, 6]\<rparr>],
         poses = [\<lparr>position = (1, 2, 3), orientation = (0, 0, 0, 1)\<rparr>]\<rparr>,
        \<lparr>object_id = ''b'', operation = ADD, frame_id = ''map'', stamp = 1,
         shapes = [\<lparr>shape_type = BOX, dimensions = [10, 11, 12]\<rparr>],
         poses = [\<lparr>position = (7, 8, 9), orientation = (0, 0, 0, 1)\<rparr>]\<rparr>]"
proof -
  have opened: "one_file ''objects.txt'' well_formed_file (c_str ''objects.txt'') = Some well_formed_file"
    by (simp add: one_file_def c_str_def)
  have count: "tokens well_formed_file \<noteq> []" by (simp add: tokens_well_formed_file)
  have short: "\<forall>t\<in>set (tokens well_formed_file). length t < 1024"
    by (simp add: tokens_well_formed_file)
  have n: "atoi (c_str (hd (tokens well_formed_file))) = Inr 2"
    by (simp add: tokens_well_formed_file c_str_def atoi_def isspace_def isdigit_def)
  have two: "[0..<nat 2] = [0, 1]" by (simp add: upt_conv_Cons)
  have main: "getCollisionObjects atof_digits clock (one_file ''objects.txt'' well_formed_file)
       ''objects.txt'' ''map'' =
     Inr (map (positional_cube atof_digits clock ''map'' (tokens well_formed_file)
                (ends_with_space well_formed_file)) [0..<nat 2])"
    using getCollisionObjects_positional [where fs = "one_file ''objects.txt'' well_formed_file"
        and filename = "''objects.txt''" and contents = well_formed_file and n = 2
        and atof = atof_digits and now = clock and frame = "''map''", OF opened count short n]
    by simp
  show ?thesis
    unfolding main two
    by (simp add: positional_cube_def cube_of_row_def record_fields_def positional_field_def
        last_read_def tokens_well_formed_file ends_well_formed_file c_str_def atof_digits_def
        isdigit_def upt_conv_Cons clock_def)
qed

text \<open>
  C6 as stated fails: record \<open>a\<close> of the second file has three values. It is neither
  skipped nor zero-filled: the first object is \<open>a\<close> with the dimensions \<open>(0, 1, 2)\<close>, read
  from the tokens \<open>b 1 2\<close> of the next record. The well-formed record \<open>b\<close> is not read as a
  record: the second object has the id \<open>3\<close> and the position \<open>(4, 5, 6)\<close>.
\<close>

theorem short_record_counterexample:
  "getCollisionObjects atof_digits clock (one_file ''objects.txt'' short_record_file)
     ''objects.txt'' ''map'' =
   Inr [\<lparr>object_id = ''a'', operation = ADD, frame_id = ''map'', stamp = 0,
         shapes = [\<lparr>shape_type = BOX, dimensions = [0, 1, 2]\<rparr>],
         poses = [\<lparr>position = (1, 2, 3), orientation = (0, 0, 0, 1)\<rparr>]\<rparr>,
        \<lparr>object_id = ''3'', operation = ADD, frame_id = ''map'', stamp = 1,
         shapes = [\<lparr>shape_type = BOX, dimensions = [0, 0, 0]\<rparr>],
         poses = [\<lparr>position = (4, 5, 6), orientation = (0, 0, 0, 1)\<rparr>]\<rparr>]"
  by (simp add: getCollisionObjects_def one_file_def short_record_file_def c_str_def fscanf_s_def
      isspace_def atoi_def isdigit_def resize_def atof_digits_def getCollisionCubes_def
      getCollisionCube_def numeral_eq_Suc clock_def)

text \<open>
  C10. When the file cannot be opened the loader returns the empty list, and so does
  \<open>getCollisionCubes\<close> when the list of ids and the list of objects differ in length;
  neither is an error.
\<close>

theorem empty_list_when_unopened_or_mismatched:
  "(fs (c_str filename) = None \<longrightarrow> getCollisionObjects atof now fs filename frame = Inr [])
   \<and> (length object_ids \<noteq> length objects \<longrightarrow>
        getCollisionCubes now' objects object_ids frame' = Inr [])"
  by (simp add: getCollisionObjects_def getCollisionCubes_def)

theorem empty_list_when_unopened_or_mismatched_witness:
  "getCollisionObjects atof_digits clock (one_file ''objects.txt'' well_formed_file)
     ''missing.txt'' ''map'' = Inr []
   \<and> getCollisionCubes clock [[1, 2, 3, 4, 5, 6 :: rat]] [] ''map'' = Inr []"
  using empty_list_when_unopened_or_mismatched [of "one_file ''objects.txt'' well_formed_file"
      "''missing.txt''" atof_digits clock "''map''" "[]" "[[1, 2, 3, 4, 5, 6 :: rat]]"
      clock "''map''"]
  by (simp add: one_file_def c_str_def)

section \<open>Propagated distances\<close>

lemma set_cells: "c \<in> set (cells fld) \<longleftrightarrow> in_bounds fld c"
proof (cases c)
  case (fields ix iy iz)
  have "(ix, iy, iz) \<in> set (cells fld) \<longleftrightarrow>
        ix \<in> {0..dimension fld DIM_X - 1} \<and> iy \<in> {0..dimension fld DIM_Y - 1} \<and>
        iz \<in> {0..dimension fld DIM_Z - 1}"
    by (simp add: cells_def image_iff)
  then show ?thesis using fields by (auto simp: in_bounds_def)
qed

lemma foldr_min_zero_iff:
  fixes g :: "'a \<Rightarrow> rat"
  assumes "0 < r" and "\<forall>x. 0 \<le> g x"
  shows "0 \<le> foldr (\<lambda>x d. min (g x) d) xs r
       \<and> (foldr (\<lambda>x d. min (g x) d) xs r = 0 \<longleftrightarrow> (\<exists>x\<in>set xs. g x = 0))"
proof (induction xs)
  case Nil
  from assms(1) show ?case by simp
next
  case (Cons x xs)
  from assms(2) have "0 \<le> g x" by simp
  with Cons show ?case by (auto simp: min_def)
qed

lemma chessboard_nonneg: "0 \<le> chessboard a b"
  by (cases a, cases b) (simp add: chessboard_def)

lemma chessboard_zero_iff: "chessboard a b = 0 \<longleftrightarrow> a = b"
  by (cases a, cases b) (auto simp: chessboard_def max_def)

text \<open>
  C1. In the voxel field of the specification, with a resolution above 0, a propagation
  radius of at least the resolution and a metric that is never negative and is 0 exactly
  between a cell and itself: after \<open>propagate\<close>, whatever the field was before, the
  distance of an in-bounds cell is 0 if and only if the cell is occupied.
\<close>

theorem propagate_zero_iff_occupied:
  assumes res: "0 < resolution fld" and radius: "resolution fld \<le> propagation_radius fld"
    and nonneg: "\<And>a b. 0 \<le> metric a b" and zero: "\<And>a b. metric a b = 0 \<longleftrightarrow> a = b"
    and c: "in_bounds fld c"
  shows "distance (propagate metric fld) c = 0 \<longleftrightarrow> occupied (propagate metric fld) c"
proof -
  have r: "0 < propagation_radius fld" using res radius by simp
  have g: "\<forall>x. 0 \<le> resolution fld * metric c x" using res nonneg by simp
  have "distance (propagate metric fld) c = nearest metric fld c"
    using c by (simp add: propagate_def)
  also have "\<dots> = 0 \<longleftrightarrow>
      (\<exists>x\<in>set (filter (occupied fld) (cells fld)). resolution fld * metric c x = 0)"
    unfolding nearest_def
    using foldr_min_zero_iff [OF r g, of "filter (occupied fld) (cells fld)"] by simp
  also have "\<dots> \<longleftrightarrow> occupied fld c"
    using res c zero by (auto simp: set_cells)
  finally show ?thesis by (simp add: propagate_def)
qed

text \<open>
  The theorem on the small field with the chessboard metric: the cell \<open>(1, 1, 1)\<close> is
  occupied and at distance 0, the cell \<open>(0, 1, 2)\<close> is free and at a distance other than 0.
\<close>

theorem propagate_zero_iff_occupied_witness:
  "in_bounds small_field (1, 1, 1)
   \<and> (distance (propagate chessboard small_field) (1, 1, 1) = 0) =
       occupied (propagate chessboard small_field) (1, 1, 1)
   \<and> occupied (propagate chessboard small_field) (1, 1, 1)
   \<and> in_bounds small_field (0, 1, 2)
   \<and> (distance (propagate chessboard small_field) (0, 1, 2) = 0) =
       occupied (propagate chessboard small_field) (0, 1, 2)
   \<and> \<not> occupied (propagate chessboard small_field) (0, 1, 2)"
proof -
  have res: "0 < resolution small_field"
    and radius: "resolution small_field \<le> propagation_radius small_field"
    by (simp_all add: small_field_def markOccupied_def reset_def)
  have b1: "in_bounds small_field (1, 1, 1)" and b2: "in_bounds small_field (0, 1, 2)"
    by (simp_all add: small_field_def markOccupied_def reset_def in_bounds_def)
  have o1: "occupied (propagate chessboard small_field) (1, 1, 1)"
    and o2: "\<not> occupied (propagate chessboard small_field) (0, 1, 2)"
    by (simp_all add: propagate_def small_field_def markOccupied_def reset_def in_bounds_def)
  show ?thesis
    using propagate_zero_iff_occupied [OF res radius chessboard_nonneg chessboard_zero_iff b1]
      propagate_zero_iff_occupied [OF res radius chessboard_nonneg chessboard_zero_iff b2]
      b1 b2 o1 o2
    by simp
qed


end
